theory Spec2Isabelle
  imports Complex_Main "HOL-Library.Word" "HOL-Library.Multiset"
begin

unbundle bit_operations_syntax

section \<open>The token dataset pipeline of scripts/pretrain.py\<close>

text \<open>
  The development embeds \<^verbatim>\<open>MMapTextDataset\<close> of \<^verbatim>\<open>scripts/pretrain.py\<close>: the
  ingestion \<^verbatim>\<open>raw_text_to_mmap\<close> with its per-line chunking loop and its nested
  \<^verbatim>\<open>_tokenized_text_to_mmap\<close>, and the reader (\<^verbatim>\<open>__init__\<close>, \<^verbatim>\<open>__len__\<close>,
  \<^verbatim>\<open>__getitem__\<close>).

  External collaborators are inputs of the model. The tokenizer is a record of the
  attributes and methods the code calls. The random generator is a record of the values
  its calls return, indexed by the number of calls made before. The environment is a
  record: the paths for which \<^verbatim>\<open>os.path.exists\<close> holds (a directory under its name
  with and without a final slash, a regular file under its name only), what \<^verbatim>\<open>glob\<close>
  returns, the lines of the text files, the bytes of the binary files, and how the
  installed numpy treats a mapping of no bytes.

  \<^verbatim>\<open>np.memmap\<close> stores an array of unsigned 16-bit elements row by row, two bytes for
  an element, the low byte first. Opening a file for reading fails on a file of no
  bytes and on an odd number of bytes. Creating a mapping for an array without elements
  first creates the file; older versions of numpy (2.0 among them) then raise
  \<^verbatim>\<open>ValueError\<close> and leave the file without bytes, newer versions write one zero byte
  and go on. Which of the two the installed numpy does is a field of the environment.
\<close>

subsection \<open>Data\<close>

datatype error =
  AssertionError | ZeroDivisionError | IndexError | ValueError | OverflowError |
  FileNotFoundError | FileExistsError | OSError

type_synonym uint16 = "16 word"

type_synonym byte = "8 word"

datatype empty_memmap = Refuses_empty | Writes_one_byte

record 'tok tokenizer =
  vocab_len :: int
  bos_token :: 'tok
  eos_token :: 'tok
  pad_token :: 'tok
  tokenize :: "string \<Rightarrow> 'tok list"
  convert_tokens_to_ids :: "'tok list \<Rightarrow> int list"

record args =
  input_dir :: string
  seqlen :: int
  train_dev_split :: real

record 'tok random_source =
  random_draw :: "nat \<Rightarrow> real"
  shuffle_perm :: "nat \<Rightarrow> 'tok list list \<Rightarrow> 'tok list list"

record world =
  paths :: "string set"
  glob :: "string \<Rightarrow> string list"
  text_files :: "string \<rightharpoonup> string list"
  bin_files :: "string \<rightharpoonup> byte list"
  numpy_empty_memmap :: empty_memmap

record MMapTextDataset =
  num_instances :: int
  token_ids :: "uint16 list list option"
  mmap_filename :: string
  chunk_size :: int

subsection \<open>The chunking loop (lines 67 to 76)\<close>

text \<open>
  The \<^verbatim>\<open>for token in tokens\<close> loop, on the pair of the bucket \<^verbatim>\<open>chunks_list\<close> and
  \<^verbatim>\<open>current_chunk\<close>.
\<close>

fun chunk_tokens ::
  "'tok tokenizer \<Rightarrow> int \<Rightarrow> 'tok list \<Rightarrow> 'tok list list \<times> 'tok list \<Rightarrow> 'tok list list \<times> 'tok list"
where
  "chunk_tokens tk S [] (chunks_list, current_chunk) = (chunks_list, current_chunk)"
| "chunk_tokens tk S (token # tokens) (chunks_list, current_chunk) =
     (if int (length current_chunk) = S - 1
      then chunk_tokens tk S tokens
             (chunks_list @ [current_chunk @ [eos_token tk]], [bos_token tk] @ [token])
      else chunk_tokens tk S tokens (chunks_list, current_chunk @ [token]))"

text \<open>Python's \<^verbatim>\<open>xs[i] = v\<close>: a negative index counts from the end, out of range raises.\<close>

definition list_setitem :: "'a list \<Rightarrow> int \<Rightarrow> 'a \<Rightarrow> error + 'a list" where
  "list_setitem xs i v =
     (if 0 \<le> i \<and> i < int (length xs) then Inr (xs[nat i := v])
      else if i < 0 \<and> 0 \<le> int (length xs) + i then Inr (xs[nat (int (length xs) + i) := v])
      else Inl IndexError)"

text \<open>
  Lines 67 to 76 for one tokenized line: the loop, the padding (\<^verbatim>\<open>[pad] * k\<close> is empty
  for \<open>k \<le> 0\<close>), the write of the end marker at index \<open>seqlen - 1\<close> and the append of
  the last chunk. The result is the bucket with the line's chunks appended.
\<close>

definition build_chunks ::
  "'tok tokenizer \<Rightarrow> int \<Rightarrow> 'tok list \<Rightarrow> 'tok list list \<Rightarrow> error + 'tok list list"
where
  "build_chunks tk S tokens chunks_list =
     (case chunk_tokens tk S tokens (chunks_list, [bos_token tk]) of
        (chunks_list', current_chunk) \<Rightarrow>
          (case list_setitem
                  (current_chunk @ replicate (nat (S - int (length current_chunk))) (pad_token tk))
                  (S - 1) (eos_token tk) of
             Inl e \<Rightarrow> Inl e
           | Inr final \<Rightarrow> Inr (chunks_list' @ [final])))"

subsection \<open>The loops over lines and files (lines 58 to 76)\<close>

text \<open>\<^verbatim>\<open>str.isspace\<close> on the code points below 256, and \<^verbatim>\<open>str.strip\<close>.\<close>

definition py_isspace :: "char \<Rightarrow> bool" where
  "py_isspace c =
     (let k = of_char c :: nat
      in (9 \<le> k \<and> k \<le> 13) \<or> (28 \<le> k \<and> k \<le> 32) \<or> k = 133 \<or> k = 160)"

definition strip :: "string \<Rightarrow> string" where
  "strip s = rev (dropWhile py_isspace (rev (dropWhile py_isspace s)))"

text \<open>
  The loop over the lines of one file. The state is the train bucket, the validation
  bucket and the number of calls made to the random generator so far.
\<close>

fun process_lines ::
  "'tok tokenizer \<Rightarrow> args \<Rightarrow> 'tok random_source \<Rightarrow> string list \<Rightarrow>
   'tok list list \<times> 'tok list list \<times> nat \<Rightarrow> error + 'tok list list \<times> 'tok list list \<times> nat"
where
  "process_lines tk a rs [] st = Inr st"
| "process_lines tk a rs (line # lines) (train_chunks, val_chunks, n) =
     (if strip line = ''''
      then process_lines tk a rs lines (train_chunks, val_chunks, n)
      else if random_draw rs n > train_dev_split a
      then (case build_chunks tk (seqlen a) (tokenize tk line) train_chunks of
              Inl e \<Rightarrow> Inl e
            | Inr chunks_list \<Rightarrow> process_lines tk a rs lines (chunks_list, val_chunks, Suc n))
      else (case build_chunks tk (seqlen a) (tokenize tk line) val_chunks of
              Inl e \<Rightarrow> Inl e
            | Inr chunks_list \<Rightarrow> process_lines tk a rs lines (train_chunks, chunks_list, Suc n)))"

fun process_files ::
  "'tok tokenizer \<Rightarrow> args \<Rightarrow> 'tok random_source \<Rightarrow> world \<Rightarrow> string list \<Rightarrow>
   'tok list list \<times> 'tok list list \<times> nat \<Rightarrow> error + 'tok list list \<times> 'tok list list \<times> nat"
where
  "process_files tk a rs w [] st = Inr st"
| "process_files tk a rs w (fname # fnames) st =
     (case text_files w fname of
        None \<Rightarrow> Inl OSError
      | Some fin \<Rightarrow>
          (case process_lines tk a rs fin st of
             Inl e \<Rightarrow> Inl e
           | Inr st' \<Rightarrow> process_files tk a rs w fnames st'))"

subsection \<open>Serialization (lines 78 to 89)\<close>

text \<open>
  The loop over the shuffled chunks: the ids of each chunk, the assertion on their
  number, and the store into a row of the unsigned 16-bit array (which wraps).
\<close>

fun convert_rows :: "'tok tokenizer \<Rightarrow> int \<Rightarrow> 'tok list list \<Rightarrow> error + uint16 list list" where
  "convert_rows tk S [] = Inr []"
| "convert_rows tk S (chunk # chunks) =
     (if int (length (convert_tokens_to_ids tk chunk)) \<noteq> S then Inl AssertionError
      else (case convert_rows tk S chunks of
              Inl e \<Rightarrow> Inl e
            | Inr rows \<Rightarrow> Inr (map word_of_int (convert_tokens_to_ids tk chunk) # rows)))"

text \<open>
  The bytes of an element and the elements of a sequence of bytes (a last single byte
  belongs to no element).
\<close>

definition uint16_to_bytes :: "uint16 \<Rightarrow> byte list" where
  "uint16_to_bytes x = [ucast x, ucast (drop_bit 8 x)]"

fun bytes_to_uint16s :: "byte list \<Rightarrow> uint16 list" where
  "bytes_to_uint16s (lo # hi # bs) = (ucast lo OR push_bit 8 (ucast hi)) # bytes_to_uint16s bs"
| "bytes_to_uint16s bs = []"

text \<open>
  Lines 86 to 89: \<^verbatim>\<open>np.memmap\<close> in mode \<^verbatim>\<open>w+\<close> with the shape of the array, the copy of
  the array and the flush. The file is created or truncated first; an array without
  elements is treated as the installed numpy does.
\<close>

definition memmap_write :: "world \<Rightarrow> string \<Rightarrow> uint16 list list \<Rightarrow> (error + unit) \<times> world" where
  "memmap_write w fname all_token_ids =
     (if concat all_token_ids = []
      then (case numpy_empty_memmap w of
              Refuses_empty \<Rightarrow>
                (Inl ValueError,
                 w\<lparr>paths := insert fname (paths w), bin_files := (bin_files w)(fname \<mapsto> [])\<rparr>)
            | Writes_one_byte \<Rightarrow>
                (Inr (),
                 w\<lparr>paths := insert fname (paths w), bin_files := (bin_files w)(fname \<mapsto> [0])\<rparr>))
      else (Inr (),
            w\<lparr>paths := insert fname (paths w),
              bin_files := (bin_files w)(fname \<mapsto>
                concat (map uint16_to_bytes (concat all_token_ids)))\<rparr>))"

text \<open>
  \<^verbatim>\<open>_tokenized_text_to_mmap\<close>: the shuffle (call \<open>n\<close> of the generator), the array
  allocated by \<^verbatim>\<open>np.empty\<close> (a negative \<open>seqlen\<close> is refused), the loop over the chunks and
  the write of the file. A failure before the write leaves the file system as it was.
\<close>

definition tokenized_text_to_mmap ::
  "'tok tokenizer \<Rightarrow> args \<Rightarrow> 'tok random_source \<Rightarrow> nat \<Rightarrow> string \<Rightarrow> 'tok list list \<Rightarrow> world \<Rightarrow>
   (error + unit) \<times> world"
where
  "tokenized_text_to_mmap tk a rs n output_fname chunks_list w =
     (if seqlen a < 0 then (Inl ValueError, w)
      else (case convert_rows tk (seqlen a) (shuffle_perm rs n chunks_list) of
              Inl e \<Rightarrow> (Inl e, w)
            | Inr all_token_ids \<Rightarrow> memmap_write w output_fname all_token_ids))"

subsection \<open>Ingestion (lines 44 to 92)\<close>

text \<open>
  \<^verbatim>\<open>raw_text_to_mmap\<close> returns its outcome with the file system it leaves behind: first
  the assertion on the size of the vocabulary, then the test for the cache directory,
  then \<^verbatim>\<open>os.mkdir\<close> (which refuses a path that exists as a regular file and needs the
  input directory to exist), the loops over the files and lines (\<^verbatim>\<open>open\<close> fails on a
  path that is not a readable text file), and the two serializations. The calls of the
  random generator are counted from 0.
\<close>

definition cache_dir :: "args \<Rightarrow> string" where
  "cache_dir a = input_dir a @ ''/cache/''"

definition os_mkdir :: "world \<Rightarrow> string \<Rightarrow> string \<Rightarrow> error + world" where
  "os_mkdir w parent name =
     (if parent @ ''/'' @ name \<in> paths w \<or> parent @ ''/'' @ name @ ''/'' \<in> paths w
      then Inl FileExistsError
      else if parent \<notin> paths w then Inl FileNotFoundError
      else Inr (w\<lparr>paths := insert (parent @ ''/'' @ name @ ''/'')
                              (insert (parent @ ''/'' @ name) (paths w))\<rparr>))"

definition raw_text_to_mmap ::
  "'tok tokenizer \<Rightarrow> args \<Rightarrow> 'tok random_source \<Rightarrow> world \<Rightarrow> (error + unit) \<times> world"
where
  "raw_text_to_mmap tk a rs w =
     (if \<not> vocab_len tk < 65535 then (Inl AssertionError, w)
      else if cache_dir a \<in> paths w then (Inr (), w)
      else
        (case os_mkdir w (input_dir a) ''cache'' of
           Inl e \<Rightarrow> (Inl e, w)
         | Inr w1 \<Rightarrow>
             (case process_files tk a rs w1 (glob w (input_dir a @ ''/*.txt'')) ([], [], 0) of
                Inl e \<Rightarrow> (Inl e, w1)
              | Inr (train_chunks, val_chunks, n) \<Rightarrow>
                  (case tokenized_text_to_mmap tk a rs n (cache_dir a @ ''train.bin'')
                          train_chunks w1 of
                     (Inl e, w2) \<Rightarrow> (Inl e, w2)
                   | (Inr u, w2) \<Rightarrow>
                       tokenized_text_to_mmap tk a rs (Suc n) (cache_dir a @ ''val.bin'')
                         val_chunks w2))))"

subsection \<open>The mapped dataset (lines 24 to 41)\<close>

text \<open>
  \<^verbatim>\<open>np.memmap\<close> in mode \<^verbatim>\<open>r\<close> without a shape: all elements of the file. It raises on a
  number of bytes that is odd and on a file of no bytes.
\<close>

definition memmap_1d :: "world \<Rightarrow> string \<Rightarrow> error + uint16 list" where
  "memmap_1d w fname =
     (case bin_files w fname of
        None \<Rightarrow> Inl FileNotFoundError
      | Some bytes \<Rightarrow>
          if odd (length bytes) then Inl ValueError
          else if bytes = [] then Inl ValueError
          else Inr (bytes_to_uint16s bytes))"

text \<open>
  \<^verbatim>\<open>__init__\<close>: the number of elements of the file, divided by the chunk size with
  Python's floor division, which raises on a divisor 0. The mapping itself is not kept.
\<close>

definition MMapTextDataset_init :: "world \<Rightarrow> string \<Rightarrow> int \<Rightarrow> error + MMapTextDataset" where
  "MMapTextDataset_init w fname csize =
     (case memmap_1d w fname of
        Inl e \<Rightarrow> Inl e
      | Inr elems \<Rightarrow>
          if csize = 0 then Inl ZeroDivisionError
          else Inr \<lparr>num_instances = int (length elems) div csize, token_ids = None,
                    mmap_filename = fname, chunk_size = csize\<rparr>)"

definition len :: "MMapTextDataset \<Rightarrow> int" where
  "len self = num_instances self"

text \<open>
  \<^verbatim>\<open>np.memmap\<close> in mode \<^verbatim>\<open>r\<close> with a shape: \<open>2 * rows * cols\<close> bytes are mapped (a
  negative length is refused, as are a file of no bytes and a file that is too short),
  and the array of the first \<open>rows * cols\<close> elements is built (negative dimensions are
  refused).
\<close>

definition memmap_2d :: "world \<Rightarrow> string \<Rightarrow> int \<Rightarrow> int \<Rightarrow> error + uint16 list list" where
  "memmap_2d w fname rows cols =
     (case bin_files w fname of
        None \<Rightarrow> Inl FileNotFoundError
      | Some bytes \<Rightarrow>
          if 2 * (rows * cols) < 0 then Inl OverflowError
          else if bytes = [] \<or> int (length bytes) < 2 * (rows * cols) then Inl ValueError
          else if rows < 0 \<or> cols < 0 then Inl ValueError
          else Inr (map (\<lambda>k. take (nat cols) (drop (k * nat cols) (bytes_to_uint16s bytes)))
                      [0..<nat rows]))"

text \<open>
  \<^verbatim>\<open>__getitem__\<close>: the mapping is opened at the first call and kept; row \<open>i\<close> (a negative
  index counts from the end) is returned with each element widened to a signed integer.
\<close>

definition getitem ::
  "world \<Rightarrow> MMapTextDataset \<Rightarrow> int \<Rightarrow> (error + int list) \<times> MMapTextDataset"
where
  "getitem w self i =
     (case (case token_ids self of
              None \<Rightarrow> memmap_2d w (mmap_filename self) (num_instances self) (chunk_size self)
            | Some m \<Rightarrow> Inr m) of
        Inl e \<Rightarrow> (Inl e, self)
      | Inr m \<Rightarrow>
          (if 0 \<le> i \<and> i < int (length m)
           then (Inr (map uint (m ! nat i)), self\<lparr>token_ids := Some m\<rparr>)
           else if i < 0 \<and> 0 \<le> int (length m) + i
           then (Inr (map uint (m ! nat (int (length m) + i))), self\<lparr>token_ids := Some m\<rparr>)
           else (Inl IndexError, self\<lparr>token_ids := Some m\<rparr>)))"

subsection \<open>Auxiliary notions used to state the properties\<close>

text \<open>
  A chunk with the values of the three markers filtered out: what remains are the
  content tokens, provided the document itself contains no marker.
\<close>

definition strip_markers :: "'tok tokenizer \<Rightarrow> 'tok list \<Rightarrow> 'tok list" where
  "strip_markers tk chunk =
     filter (\<lambda>t. t \<noteq> bos_token tk \<and> t \<noteq> eos_token tk \<and> t \<noteq> pad_token tk) chunk"

text \<open>The chunks that lines 67 to 76 append for one line of text.\<close>

definition document_chunks :: "'tok tokenizer \<Rightarrow> int \<Rightarrow> string \<Rightarrow> 'tok list list" where
  "document_chunks tk S line =
     (case build_chunks tk S (tokenize tk line) [] of Inl e \<Rightarrow> [] | Inr new \<Rightarrow> new)"

text \<open>
  The non-empty lines of a file, each paired with the value of the one call of
  \<^verbatim>\<open>random.random\<close> made for it, when \<open>n\<close> calls were made before the file.
\<close>

definition tag_documents :: "'tok random_source \<Rightarrow> nat \<Rightarrow> string list \<Rightarrow> (string \<times> real) list" where
  "tag_documents rs n lines =
     zip (filter (\<lambda>l. strip l \<noteq> '''') lines)
         (map (random_draw rs) [n..<n + length (filter (\<lambda>l. strip l \<noteq> '''') lines)])"

text \<open>
  The split as the specification words it, for comparison with \<open>process_lines\<close>: one
  draw for every chunk, a draw above the ratio sends the chunk to the train bucket.
\<close>

fun assign_per_chunk ::
  "args \<Rightarrow> 'tok random_source \<Rightarrow> 'tok list list \<Rightarrow>
   'tok list list \<times> 'tok list list \<times> nat \<Rightarrow> 'tok list list \<times> 'tok list list \<times> nat"
where
  "assign_per_chunk a rs [] st = st"
| "assign_per_chunk a rs (chunk # chunks) (train_chunks, val_chunks, n) =
     (if random_draw rs n > train_dev_split a
      then assign_per_chunk a rs chunks (train_chunks @ [chunk], val_chunks, Suc n)
      else assign_per_chunk a rs chunks (train_chunks, val_chunks @ [chunk], Suc n))"

fun process_lines_per_chunk ::
  "'tok tokenizer \<Rightarrow> args \<Rightarrow> 'tok random_source \<Rightarrow> string list \<Rightarrow>
   'tok list list \<times> 'tok list list \<times> nat \<Rightarrow> error + 'tok list list \<times> 'tok list list \<times> nat"
where
  "process_lines_per_chunk tk a rs [] st = Inr st"
| "process_lines_per_chunk tk a rs (line # lines) st =
     (if strip line = '''' then process_lines_per_chunk tk a rs lines st
      else (case build_chunks tk (seqlen a) (tokenize tk line) [] of
              Inl e \<Rightarrow> Inl e
            | Inr new \<Rightarrow> process_lines_per_chunk tk a rs lines (assign_per_chunk a rs new st)))"

subsection \<open>Example inputs\<close>

text \<open>
  A small tokenizer in the style of RoBERTa's vocabulary (words split at white space,
  ids 0 to 3 for the special tokens), a random source, and a directory with one file.
\<close>

fun example_words :: "string \<Rightarrow> string \<Rightarrow> string list" where
  "example_words acc [] = (if acc = [] then [] else [acc])"
| "example_words acc (c # cs) =
     (if py_isspace c
      then (if acc = [] then example_words [] cs else acc # example_words [] cs)
      else example_words (acc @ [c]) cs)"

definition example_id :: "string \<Rightarrow> int" where
  "example_id t =
     (if t = ''<s>'' then 0 else if t = ''<pad>'' then 1 else if t = ''</s>'' then 2
      else if t = ''hello'' then 4 else if t = ''world'' then 5 else 3)"

definition example_tokenizer :: "string tokenizer" where
  "example_tokenizer =
     \<lparr>vocab_len = 50265, bos_token = ''<s>'', eos_token = ''</s>'', pad_token = ''<pad>'',
      tokenize = example_words [], convert_tokens_to_ids = map example_id\<rparr>"

definition example_random :: "string random_source" where
  "example_random =
     \<lparr>random_draw = (\<lambda>n. if n = 0 then 9 / 10 else 1 / 10),
      shuffle_perm = (\<lambda>n chunks. rev chunks)\<rparr>"

definition example_world :: world where
  "example_world =
     \<lparr>paths = {''data'', ''data/'', ''data/a.txt''},
      glob = (\<lambda>pattern. if pattern = ''data/*.txt'' then [''data/a.txt''] else []),
      text_files = [''data/a.txt'' \<mapsto> [''hello world'' @ [CHR 0x0A], [CHR 0x0A]]],
      bin_files = Map.empty,
      numpy_empty_memmap = Refuses_empty\<rparr>"

definition example_args :: "int \<Rightarrow> real \<Rightarrow> args" where
  "example_args S ratio = \<lparr>input_dir = ''data'', seqlen = S, train_dev_split = ratio\<rparr>"

section \<open>Properties\<close>

subsection \<open>The shape of the chunking loop's result\<close>

lemma chunk_tokens_decomp:
  assumes "3 \<le> S" and "int (length content) \<le> S - 2"
  shows "\<exists>parts content'.
           chunk_tokens tk S tokens (cl, bos_token tk # content) =
             (cl @ map (\<lambda>p. bos_token tk # p @ [eos_token tk]) parts, bos_token tk # content') \<and>
           concat parts @ content' = content @ tokens \<and>
           (\<forall>p\<in>set parts. int (length p) = S - 2) \<and>
           int (length content') \<le> S - 2 \<and>
           (content @ tokens \<noteq> [] \<longrightarrow> content' \<noteq> [])"
  using assms(2)
proof (induction tokens arbitrary: cl content)
  case Nil
  show ?case
    by (rule exI [of _ "[]"], rule exI [of _ content]) (use Nil in simp)
next
  case (Cons t ts)
  show ?case
  proof (cases "int (length content) = S - 2")
    case True
    have one: "int (length [t]) \<le> S - 2" using assms(1) by simp
    from Cons.IH [OF one, of "cl @ [bos_token tk # content @ [eos_token tk]]"]
    obtain parts content' where
      run: "chunk_tokens tk S ts (cl @ [bos_token tk # content @ [eos_token tk]], bos_token tk # [t]) =
             ((cl @ [bos_token tk # content @ [eos_token tk]]) @
                map (\<lambda>p. bos_token tk # p @ [eos_token tk]) parts, bos_token tk # content')"
      and cat: "concat parts @ content' = [t] @ ts"
      and len: "\<forall>p\<in>set parts. int (length p) = S - 2"
      and bound: "int (length content') \<le> S - 2"
      and ne: "[t] @ ts \<noteq> [] \<longrightarrow> content' \<noteq> []"
      by blast
    show ?thesis
      by (rule exI [of _ "content # parts"], rule exI [of _ content'])
        (use True run cat len bound ne in simp)
  next
    case False
    with Cons.prems have less: "int (length (content @ [t])) \<le> S - 2" by simp
    from Cons.IH [OF less, of cl]
    obtain parts content' where
      run: "chunk_tokens tk S ts (cl, bos_token tk # content @ [t]) =
             (cl @ map (\<lambda>p. bos_token tk # p @ [eos_token tk]) parts, bos_token tk # content')"
      and cat: "concat parts @ content' = (content @ [t]) @ ts"
      and len: "\<forall>p\<in>set parts. int (length p) = S - 2"
      and bound: "int (length content') \<le> S - 2"
      and ne: "(content @ [t]) @ ts \<noteq> [] \<longrightarrow> content' \<noteq> []"
      by blast
    show ?thesis
      by (rule exI [of _ parts], rule exI [of _ content'])
        (use False run cat len bound ne in simp)
  qed
qed

lemma final_chunk:
  assumes "3 \<le> S" and "int (length content) \<le> S - 2"
  shows "list_setitem
           ((b # content) @ replicate (nat (S - int (length (b # content)))) p) (S - 1) e =
         Inr (b # content @ replicate (nat (S - 2 - int (length content))) p @ [e])"
proof -
  define m where "m = nat (S - 2 - int (length content))"
  have rep: "nat (S - int (length (b # content))) = Suc m"
    using assms by (simp add: m_def)
  have idx: "nat (S - 1) = length (b # content @ replicate m p)"
    using assms by (simp add: m_def)
  have total: "int (length ((b # content) @ replicate (Suc m) p)) = S"
    using assms by (simp add: m_def)
  have shape: "(b # content) @ replicate (Suc m) p = (b # content @ replicate m p) @ [p]"
    by (simp add: replicate_append_same)
  have upd: "((b # content @ replicate m p) @ [p])[length (b # content @ replicate m p) := e] =
             (b # content @ replicate m p) @ [e]"
    by (rule list_update_length)
  have "list_setitem ((b # content) @ replicate (Suc m) p) (S - 1) e =
        Inr (((b # content) @ replicate (Suc m) p)[nat (S - 1) := e])"
    unfolding list_setitem_def using total assms(1) by simp
  also have "\<dots> = Inr ((b # content @ replicate m p) @ [e])"
    unfolding shape idx upd ..
  finally show ?thesis
    unfolding rep m_def by simp
qed

lemma build_chunks_decomp:
  assumes "3 \<le> S"
  shows "\<exists>parts content'.
           build_chunks tk S tokens cl =
             Inr (cl @ map (\<lambda>p. bos_token tk # p @ [eos_token tk]) parts @
                  [bos_token tk # content' @
                     replicate (nat (S - 2 - int (length content'))) (pad_token tk) @
                     [eos_token tk]]) \<and>
           concat parts @ content' = tokens \<and>
           (\<forall>p\<in>set parts. int (length p) = S - 2) \<and>
           int (length content') \<le> S - 2 \<and>
           (tokens \<noteq> [] \<longrightarrow> content' \<noteq> [])"
proof -
  have empty: "int (length ([] :: 'a list)) \<le> S - 2" using assms by simp
  from chunk_tokens_decomp [OF assms empty, of tk tokens cl]
  obtain parts content' where
    run: "chunk_tokens tk S tokens (cl, [bos_token tk]) =
           (cl @ map (\<lambda>p. bos_token tk # p @ [eos_token tk]) parts, bos_token tk # content')"
    and cat: "concat parts @ content' = tokens"
    and len: "\<forall>p\<in>set parts. int (length p) = S - 2"
    and bound: "int (length content') \<le> S - 2"
    and ne: "tokens \<noteq> [] \<longrightarrow> content' \<noteq> []"
    by auto
  have "build_chunks tk S tokens cl =
          Inr (cl @ map (\<lambda>p. bos_token tk # p @ [eos_token tk]) parts @
               [bos_token tk # content' @
                  replicate (nat (S - 2 - int (length content'))) (pad_token tk) @
                  [eos_token tk]])"
    unfolding build_chunks_def run
    using final_chunk [OF assms bound, of "bos_token tk" "pad_token tk" "eos_token tk"]
    by simp
  with cat len bound ne show ?thesis by blast
qed

lemma length_concat_uniform:
  "\<forall>p\<in>set parts. int (length p) = k \<Longrightarrow> int (length (concat parts)) = k * int (length parts)"
  by (induction parts) (simp_all add: algebra_simps)

lemma ceiling_quotient:
  fixes k q r :: int
  assumes "1 \<le> r" and "r \<le> k"
  shows "\<lceil>real_of_int (k * q + r) / real_of_int k\<rceil> = q + 1"
proof -
  have pos: "k \<noteq> 0" using assms by simp
  have split: "- (k * q + r) = (k - r) + k * (- q - 1)" by (simp add: algebra_simps)
  have "(- (k * q + r)) div k = ((k - r) + k * (- q - 1)) div k"
    by (rule arg_cong [where f = "\<lambda>x. x div k"]) (rule split)
  also have "\<dots> = (- q - 1) + (k - r) div k"
    by (rule div_mult_self2 [OF pos])
  also have "(k - r) div k = 0" using assms by simp
  finally have quot: "(- (k * q + r)) div k = - q - 1" by simp
  have "\<lceil>real_of_int (k * q + r) / real_of_int k\<rceil> = - ((- (k * q + r)) div k)"
    by (rule ceiling_divide_eq_div)
  also have "\<dots> = q + 1" unfolding quot by simp
  finally show ?thesis .
qed

subsection \<open>One line of text, one draw\<close>

lemma chunk_tokens_bucket:
  "chunk_tokens tk S tokens (cl, cur) =
     (cl @ fst (chunk_tokens tk S tokens ([], cur)), snd (chunk_tokens tk S tokens ([], cur)))"
proof (induction tokens arbitrary: cl cur)
  case Nil
  show ?case by simp
next
  case (Cons t ts)
  show ?case
  proof (cases "int (length cur) = S - 1")
    case True
    have "chunk_tokens tk S (t # ts) (cl, cur) =
            chunk_tokens tk S ts (cl @ [cur @ [eos_token tk]], [bos_token tk, t])"
      using True by simp
    also have "\<dots> = ((cl @ [cur @ [eos_token tk]]) @
                      fst (chunk_tokens tk S ts ([], [bos_token tk, t])),
                    snd (chunk_tokens tk S ts ([], [bos_token tk, t])))"
      by (rule Cons.IH)
    finally have left: "chunk_tokens tk S (t # ts) (cl, cur) =
        (cl @ [cur @ [eos_token tk]] @ fst (chunk_tokens tk S ts ([], [bos_token tk, t])),
         snd (chunk_tokens tk S ts ([], [bos_token tk, t])))"
      by simp
    have "chunk_tokens tk S (t # ts) ([], cur) =
            chunk_tokens tk S ts ([cur @ [eos_token tk]], [bos_token tk, t])"
      using True by simp
    also have "\<dots> = ([cur @ [eos_token tk]] @
                      fst (chunk_tokens tk S ts ([], [bos_token tk, t])),
                    snd (chunk_tokens tk S ts ([], [bos_token tk, t])))"
      by (rule Cons.IH)
    finally have right: "chunk_tokens tk S (t # ts) ([], cur) =
        ([cur @ [eos_token tk]] @ fst (chunk_tokens tk S ts ([], [bos_token tk, t])),
         snd (chunk_tokens tk S ts ([], [bos_token tk, t])))" .
    show ?thesis unfolding left right by simp
  next
    case False
    have "chunk_tokens tk S (t # ts) (cl, cur) = chunk_tokens tk S ts (cl, cur @ [t])"
      using False by simp
    moreover have "chunk_tokens tk S (t # ts) ([], cur) = chunk_tokens tk S ts ([], cur @ [t])"
      using False by simp
    ultimately show ?thesis using Cons.IH [of cl "cur @ [t]"] by simp
  qed
qed

lemma build_chunks_bucket:
  "build_chunks tk S tokens cl =
     (case build_chunks tk S tokens [] of Inl e \<Rightarrow> Inl e | Inr new \<Rightarrow> Inr (cl @ new))"
  unfolding build_chunks_def
  by (subst chunk_tokens_bucket) (simp add: case_prod_unfold split: sum.splits)

lemma build_chunks_document:
  assumes "3 \<le> S"
  shows "build_chunks tk S (tokenize tk line) cl = Inr (cl @ document_chunks tk S line)"
    and "document_chunks tk S line \<noteq> []"
proof -
  from build_chunks_decomp [OF assms, of tk "tokenize tk line" "[]"]
  obtain new where new: "build_chunks tk S (tokenize tk line) [] = Inr new" and ne: "new \<noteq> []"
    by auto
  then have doc: "document_chunks tk S line = new" by (simp add: document_chunks_def)
  show "build_chunks tk S (tokenize tk line) cl = Inr (cl @ document_chunks tk S line)"
    by (subst build_chunks_bucket) (simp add: new doc)
  show "document_chunks tk S line \<noteq> []" using doc ne by simp
qed

lemma tag_documents_Nil: "tag_documents rs n [] = []"
  by (simp add: tag_documents_def)

lemma tag_documents_Cons:
  "tag_documents rs n (l # ls) =
     (if strip l = '''' then tag_documents rs n ls
      else (l, random_draw rs n) # tag_documents rs (Suc n) ls)"
proof (cases "strip l = ''''")
  case True
  then show ?thesis by (simp add: tag_documents_def)
next
  case False
  have u: "[n..<Suc (n + k)] = n # [Suc n..<Suc (n + k)]" for k
    by (subst upt_rec) simp
  show ?thesis
    unfolding tag_documents_def using False by (simp del: upt_Suc add: u)
qed

subsection \<open>Rows written and rows read\<close>

lemma convert_rows_ok:
  "\<forall>c\<in>set chunks. int (length (convert_tokens_to_ids tk c)) = S \<Longrightarrow>
   convert_rows tk S chunks = Inr (map (\<lambda>c. map word_of_int (convert_tokens_to_ids tk c)) chunks)"
  by (induction chunks) simp_all

lemma row_of_concat:
  "\<forall>r\<in>set rows. length r = m \<Longrightarrow> k < length rows \<Longrightarrow>
   take m (drop (k * m) (concat rows)) = rows ! k"
proof (induction rows arbitrary: k)
  case Nil
  then show ?case by simp
next
  case (Cons r rs)
  then have r: "length r = m" and rest: "\<forall>r\<in>set rs. length r = m" by simp_all
  show ?case
  proof (cases k)
    case 0
    then show ?thesis using r by simp
  next
    case (Suc j)
    with Cons.prems have "j < length rs" by simp
    from Cons.IH [OF rest this] show ?thesis using Suc r by simp
  qed
qed

lemma rows_of_concat:
  assumes "\<forall>r\<in>set rows. length r = m"
  shows "map (\<lambda>k. take m (drop (k * m) (concat rows))) [0..<length rows] = rows"
  by (rule nth_equalityI) (simp_all add: row_of_concat [OF assms])

lemma length_concat_rows:
  "\<forall>r\<in>set rows. length r = m \<Longrightarrow> length (concat rows) = length rows * m"
  by (induction rows) simp_all

lemma widen_uint16:
  assumes "\<forall>t\<in>set ids. 0 \<le> t \<and> t < 65535"
  shows "map uint (map word_of_int ids :: uint16 list) = ids"
proof -
  have "uint (word_of_int t :: uint16) = t" if "t \<in> set ids" for t
  proof -
    from that assms have "0 \<le> t" "t < 2 ^ 16" by auto
    then show ?thesis by (simp add: uint_word_of_int)
  qed
  then show ?thesis by (induction ids) simp_all
qed

lemma join_split:
  "ucast (ucast x :: byte) OR push_bit 8 (ucast (ucast (drop_bit 8 x) :: byte)) = (x :: uint16)"
  by (rule bit_word_eqI) (auto simp: bit_simps)

lemma decode_encode: "bytes_to_uint16s (concat (map uint16_to_bytes xs)) = xs"
  by (induction xs) (simp_all add: uint16_to_bytes_def join_split)

lemma length_encode: "length (concat (map uint16_to_bytes xs)) = 2 * length xs"
  by (induction xs) (simp_all add: uint16_to_bytes_def)

lemma memmap_write_filled:
  "concat rows \<noteq> [] \<Longrightarrow>
   memmap_write w fname rows =
     (Inr (),
      w\<lparr>paths := insert fname (paths w),
        bin_files := (bin_files w)(fname \<mapsto> concat (map uint16_to_bytes (concat rows)))\<rparr>)"
  unfolding memmap_write_def by (rule if_not_P)

lemma write_then_map:
  fixes tk :: "'tok tokenizer" and a :: args and rs :: "'tok random_source" and n :: nat
    and chunks_list :: "'tok list list" and fname :: string and w :: world
  assumes S: "0 < seqlen a"
    and lens: "\<forall>c\<in>set (shuffle_perm rs n chunks_list).
                 int (length (convert_tokens_to_ids tk c)) = seqlen a"
    and some: "shuffle_perm rs n chunks_list \<noteq> []"
  defines "rows \<equiv> map (\<lambda>c. map word_of_int (convert_tokens_to_ids tk c) :: uint16 list)
                     (shuffle_perm rs n chunks_list)"
  defines "w' \<equiv> w\<lparr>paths := insert fname (paths w),
                    bin_files := (bin_files w)(fname \<mapsto>
                      concat (map uint16_to_bytes (concat rows)))\<rparr>"
  shows "tokenized_text_to_mmap tk a rs n fname chunks_list w = (Inr (), w')"
    and "MMapTextDataset_init w' fname (seqlen a) =
           Inr \<lparr>num_instances = int (length rows), token_ids = None, mmap_filename = fname,
                chunk_size = seqlen a\<rparr>"
    and "memmap_2d w' fname (int (length rows)) (seqlen a) = Inr rows"
proof -
  have conv: "convert_rows tk (seqlen a) (shuffle_perm rs n chunks_list) = Inr rows"
    unfolding rows_def by (rule convert_rows_ok [OF lens])
  have uniform: "\<forall>r\<in>set rows. length r = nat (seqlen a)"
    unfolding rows_def using lens by auto
  have count: "length (concat rows) = length rows * nat (seqlen a)"
    by (rule length_concat_rows [OF uniform])
  have "rows \<noteq> []" unfolding rows_def using some by simp
  then have "0 < length rows * nat (seqlen a)" using S by simp
  then have "0 < length (concat rows)" unfolding count .
  then have filled: "concat rows \<noteq> []" by (rule length_greater_0_conv [THEN iffD1])
  show "tokenized_text_to_mmap tk a rs n fname chunks_list w = (Inr (), w')"
    unfolding tokenized_text_to_mmap_def conv w'_def using S
    by (simp add: memmap_write_filled [OF filled])
  have stored: "bin_files w' fname = Some (concat (map uint16_to_bytes (concat rows)))"
    by (simp add: w'_def)
  have "0 < length (concat (map uint16_to_bytes (concat rows)))"
    unfolding length_encode using \<open>0 < length (concat rows)\<close> by simp
  then have bytes_ne: "concat (map uint16_to_bytes (concat rows)) \<noteq> []"
    by (rule length_greater_0_conv [THEN iffD1])
  have elems: "memmap_1d w' fname = Inr (concat rows)"
    unfolding memmap_1d_def stored using bytes_ne
    by (simp add: length_encode decode_encode)
  have size: "int (length (concat rows)) = int (length rows) * seqlen a"
    using count S by simp
  show "MMapTextDataset_init w' fname (seqlen a) =
           Inr \<lparr>num_instances = int (length rows), token_ids = None, mmap_filename = fname,
                chunk_size = seqlen a\<rparr>"
    using S size by (simp add: MMapTextDataset_init_def elems)
  have "0 \<le> int (length rows) * seqlen a" using S by (intro mult_nonneg_nonneg) simp_all
  then have nonneg: "\<not> 2 * (int (length rows) * seqlen a) < 0" by linarith
  have fits: "\<not> int (length (concat (map uint16_to_bytes (concat rows)))) <
                2 * (int (length rows) * seqlen a)"
    using size by (simp add: length_encode)
  have dims: "\<not> (int (length rows) < 0 \<or> seqlen a < 0)" using S by simp
  show "memmap_2d w' fname (int (length rows)) (seqlen a) = Inr rows"
    unfolding memmap_2d_def stored
    using nonneg fits dims bytes_ne rows_of_concat [OF uniform]
    by (simp add: decode_encode)
qed


subsection \<open>Claims about the chunk builder\<close>

text \<open>
  C1. For every token sequence and every \<open>seqlen\<close> of at least 3, the chunking loop
  succeeds and every chunk it appends to the bucket has exactly \<open>seqlen\<close> elements,
  starts with the begin marker and ends with the end marker; at least one chunk is
  appended.
\<close>

theorem chunk_builder_shape:
  assumes "3 \<le> S"
  shows "\<exists>new. build_chunks tk S tokens chunks_list = Inr (chunks_list @ new) \<and> new \<noteq> [] \<and>
           (\<forall>c\<in>set new. int (length c) = S \<and> hd c = bos_token tk \<and> last c = eos_token tk)"
proof -
  from build_chunks_decomp [OF assms, of tk tokens chunks_list]
  obtain parts content' where
    run: "build_chunks tk S tokens chunks_list =
            Inr (chunks_list @ map (\<lambda>p. bos_token tk # p @ [eos_token tk]) parts @
                 [bos_token tk # content' @
                    replicate (nat (S - 2 - int (length content'))) (pad_token tk) @
                    [eos_token tk]])"
    and len: "\<forall>p\<in>set parts. int (length p) = S - 2"
    and bound: "int (length content') \<le> S - 2"
    by blast
  let ?new = "map (\<lambda>p. bos_token tk # p @ [eos_token tk]) parts @
                 [bos_token tk # content' @
                    replicate (nat (S - 2 - int (length content'))) (pad_token tk) @
                    [eos_token tk]]"
  have "\<forall>c\<in>set ?new. int (length c) = S \<and> hd c = bos_token tk \<and> last c = eos_token tk"
    using len bound by auto
  then show ?thesis using run by (intro exI [of _ ?new]) simp
qed

theorem chunk_builder_shape_witness:
  "(3::int) \<le> 4 \<and>
   build_chunks example_tokenizer 4 [''a'', ''b'', ''c''] [[''x'']] =
     Inr ([[''x'']] @ [[''<s>'', ''a'', ''b'', ''</s>''], [''<s>'', ''c'', ''<pad>'', ''</s>'']]) \<and>
   (\<exists>new. build_chunks example_tokenizer 4 [''a'', ''b'', ''c''] [[''x'']] = Inr ([[''x'']] @ new) \<and>
      new \<noteq> [] \<and>
      (\<forall>c\<in>set new. int (length c) = 4 \<and> hd c = bos_token example_tokenizer \<and>
         last c = eos_token example_tokenizer))"
proof -
  have h: "(3::int) \<le> 4" by simp
  have v: "build_chunks example_tokenizer 4 [''a'', ''b'', ''c''] [[''x'']] =
     Inr ([[''x'']] @ [[''<s>'', ''a'', ''b'', ''</s>''], [''<s>'', ''c'', ''<pad>'', ''</s>'']])"
    by (simp add: build_chunks_def list_setitem_def example_tokenizer_def eval_nat_numeral)
  from h v chunk_builder_shape [OF h, of example_tokenizer "[''a'', ''b'', ''c'']" "[[''x'']]"]
  show ?thesis by blast
qed

text \<open>
  C3, as the code has it. For \<open>seqlen\<close> of at least 3, a document of \<open>T\<close> tokens
  yields one chunk when \<open>T = 0\<close> and the ceiling of \<open>T / (seqlen - 2)\<close> chunks
  otherwise: a chunk holds \<open>seqlen - 2\<close> content tokens between its two markers.
\<close>

theorem chunk_count:
  assumes "3 \<le> S"
  shows "\<exists>new. build_chunks tk S tokens chunks_list = Inr (chunks_list @ new) \<and>
           int (length new) =
             (if tokens = [] then 1 else \<lceil>real (length tokens) / real_of_int (S - 2)\<rceil>)"
proof -
  from build_chunks_decomp [OF assms, of tk tokens chunks_list]
  obtain parts content' where
    run: "build_chunks tk S tokens chunks_list =
            Inr (chunks_list @ map (\<lambda>p. bos_token tk # p @ [eos_token tk]) parts @
                 [bos_token tk # content' @
                    replicate (nat (S - 2 - int (length content'))) (pad_token tk) @
                    [eos_token tk]])"
    and cat: "concat parts @ content' = tokens"
    and len: "\<forall>p\<in>set parts. int (length p) = S - 2"
    and bound: "int (length content') \<le> S - 2"
    and ne: "tokens \<noteq> [] \<longrightarrow> content' \<noteq> []"
    by blast
  let ?new = "map (\<lambda>p. bos_token tk # p @ [eos_token tk]) parts @
                 [bos_token tk # content' @
                    replicate (nat (S - 2 - int (length content'))) (pad_token tk) @
                    [eos_token tk]]"
  have total: "int (length tokens) = (S - 2) * int (length parts) + int (length content')"
    using length_concat_uniform [OF len] cat [symmetric] by simp
  have "int (length ?new) =
          (if tokens = [] then 1 else \<lceil>real (length tokens) / real_of_int (S - 2)\<rceil>)"
  proof (cases "tokens = []")
    case True
    with total assms have "int (length parts) = 0"
      by (simp add: add_nonneg_eq_0_iff)
    with True show ?thesis by simp
  next
    case False
    with ne have "1 \<le> int (length content')" by (cases content') simp_all
    note quot = ceiling_quotient [OF this bound, of "int (length parts)"]
    have re: "real (length tokens) = real_of_int (int (length tokens))" by simp
    have "\<lceil>real (length tokens) / real_of_int (S - 2)\<rceil> =
          \<lceil>real_of_int ((S - 2) * int (length parts) + int (length content')) /
            real_of_int (S - 2)\<rceil>"
      unfolding re total ..
    also have "\<dots> = int (length parts) + 1" by (rule quot)
    finally show ?thesis using False by simp
  qed
  then show ?thesis using run by (intro exI [of _ ?new]) simp
qed

theorem chunk_count_witness:
  "(3::int) \<le> 4 \<and>
   build_chunks example_tokenizer 4 [''a'', ''b'', ''c''] [] =
     Inr [[''<s>'', ''a'', ''b'', ''</s>''], [''<s>'', ''c'', ''<pad>'', ''</s>'']] \<and>
   \<lceil>real (length [''a'', ''b'', ''c'']) / real_of_int (4 - 2)\<rceil> = 2 \<and>
   (\<exists>new. build_chunks example_tokenizer 4 [''a'', ''b'', ''c''] [] = Inr ([] @ new) \<and>
      int (length new) = 2)"
proof -
  have h: "(3::int) \<le> 4" by simp
  have v: "build_chunks example_tokenizer 4 [''a'', ''b'', ''c''] [] =
     Inr [[''<s>'', ''a'', ''b'', ''</s>''], [''<s>'', ''c'', ''<pad>'', ''</s>'']]"
    by (simp add: build_chunks_def list_setitem_def example_tokenizer_def eval_nat_numeral)
  have c: "\<lceil>real (length [''a'', ''b'', ''c'']) / real_of_int (4 - 2)\<rceil> = 2" by simp
  from chunk_count [OF h, of example_tokenizer "[''a'', ''b'', ''c'']" "[]"]
  have "\<exists>new. build_chunks example_tokenizer 4 [''a'', ''b'', ''c''] [] = Inr ([] @ new) \<and>
      int (length new) = 2"
    unfolding c by simp
  with h v c show ?thesis by blast
qed

text \<open>
  C3 as the specification states it, with the ceiling of \<open>(T + 2) / (seqlen - 1)\<close>,
  fails for two tokens and \<open>seqlen = 4\<close>: the formula gives two chunks, the loop
  builds one.
\<close>

theorem chunk_count_counterexample:
  "build_chunks example_tokenizer 4 [''a'', ''b''] [] = Inr [[''<s>'', ''a'', ''b'', ''</s>'']] \<and>
   int (length [[''<s>'', ''a'', ''b'', ''</s>'']]) \<noteq>
     \<lceil>real (length [''a'', ''b''] + 2) / real_of_int (4 - 1)\<rceil>"
  by (simp add: build_chunks_def list_setitem_def example_tokenizer_def eval_nat_numeral)

text \<open>
  C4. For \<open>seqlen\<close> of at least 3 the appended chunks are the document cut into
  consecutive parts, each part framed by the begin and end markers, the last one padded
  before its end marker: the parts concatenated in emission order are the token
  sequence, so no token is dropped, duplicated or overwritten by the final write of the
  end marker. When the document contains none of the three marker tokens, filtering the
  markers out of the chunks by value gives back the token sequence as well.
\<close>

theorem chunks_cover_tokens:
  assumes "3 \<le> S"
  shows "\<exists>parts content pads.
           build_chunks tk S tokens chunks_list =
             Inr (chunks_list @ map (\<lambda>p. bos_token tk # p @ [eos_token tk]) parts @
                  [bos_token tk # content @ replicate pads (pad_token tk) @ [eos_token tk]]) \<and>
           concat parts @ content = tokens \<and>
           (bos_token tk \<notin> set tokens \<and> eos_token tk \<notin> set tokens \<and> pad_token tk \<notin> set tokens \<longrightarrow>
            concat (map (strip_markers tk)
              (map (\<lambda>p. bos_token tk # p @ [eos_token tk]) parts @
               [bos_token tk # content @ replicate pads (pad_token tk) @ [eos_token tk]])) = tokens)"
proof -
  from build_chunks_decomp [OF assms, of tk tokens chunks_list]
  obtain parts content' where
    run: "build_chunks tk S tokens chunks_list =
            Inr (chunks_list @ map (\<lambda>p. bos_token tk # p @ [eos_token tk]) parts @
                 [bos_token tk # content' @
                    replicate (nat (S - 2 - int (length content'))) (pad_token tk) @
                    [eos_token tk]])"
    and cat: "concat parts @ content' = tokens"
    by blast
  have keep: "strip_markers tk xs = xs"
    if "bos_token tk \<notin> set xs" "eos_token tk \<notin> set xs" "pad_token tk \<notin> set xs" for xs
    unfolding strip_markers_def using that by (induction xs) auto
  have drop_pads: "strip_markers tk (replicate n (pad_token tk)) = []" for n
    by (simp add: strip_markers_def)
  have app: "strip_markers tk (xs @ ys) = strip_markers tk xs @ strip_markers tk ys" for xs ys
    by (simp add: strip_markers_def)
  have one: "strip_markers tk [x] = (if x \<noteq> bos_token tk \<and> x \<noteq> eos_token tk \<and> x \<noteq> pad_token tk then [x] else [])" for x
    by (simp add: strip_markers_def)
  have framed: "strip_markers tk (bos_token tk # p @ ys @ [eos_token tk]) = p"
    if "bos_token tk \<notin> set p" "eos_token tk \<notin> set p" "pad_token tk \<notin> set p"
      "strip_markers tk ys = []" for p ys
    using app [of "[bos_token tk]" "p @ ys @ [eos_token tk]"] that
    by (simp add: app one keep)
  have "concat (map (strip_markers tk)
          (map (\<lambda>p. bos_token tk # p @ [eos_token tk]) parts @
           [bos_token tk # content' @
              replicate (nat (S - 2 - int (length content'))) (pad_token tk) @ [eos_token tk]])) =
        tokens"
    if free: "bos_token tk \<notin> set tokens" "eos_token tk \<notin> set tokens" "pad_token tk \<notin> set tokens"
  proof -
    have inner: "\<forall>p\<in>set parts. strip_markers tk (bos_token tk # p @ [eos_token tk]) = p"
    proof
      fix p assume "p \<in> set parts"
      with cat free have "bos_token tk \<notin> set p" "eos_token tk \<notin> set p" "pad_token tk \<notin> set p"
        by auto
      from framed [OF this, of "[]"] show "strip_markers tk (bos_token tk # p @ [eos_token tk]) = p"
        by (simp add: strip_markers_def)
    qed
    then have "map (strip_markers tk) (map (\<lambda>p. bos_token tk # p @ [eos_token tk]) parts) = parts"
      by (induction parts) simp_all
    moreover from cat free have "bos_token tk \<notin> set content'" "eos_token tk \<notin> set content'"
      "pad_token tk \<notin> set content'" by auto
    from framed [OF this drop_pads]
    have "strip_markers tk (bos_token tk # content' @
              replicate (nat (S - 2 - int (length content'))) (pad_token tk) @ [eos_token tk]) = content'" .
    ultimately show ?thesis using cat by simp
  qed
  with run cat show ?thesis by blast
qed

theorem chunks_cover_tokens_witness:
  "(3::int) \<le> 4 \<and>
   bos_token example_tokenizer \<notin> set [''a'', ''b'', ''c''] \<and>
   eos_token example_tokenizer \<notin> set [''a'', ''b'', ''c''] \<and>
   pad_token example_tokenizer \<notin> set [''a'', ''b'', ''c''] \<and>
   build_chunks example_tokenizer 4 [''a'', ''b'', ''c''] [] =
     Inr [[''<s>'', ''a'', ''b'', ''</s>''], [''<s>'', ''c'', ''<pad>'', ''</s>'']] \<and>
   concat (map (strip_markers example_tokenizer)
     [[''<s>'', ''a'', ''b'', ''</s>''], [''<s>'', ''c'', ''<pad>'', ''</s>'']]) = [''a'', ''b'', ''c''] \<and>
   (\<exists>parts content pads.
      build_chunks example_tokenizer 4 [''a'', ''b'', ''c''] [] =
        Inr ([] @ map (\<lambda>p. bos_token example_tokenizer # p @ [eos_token example_tokenizer]) parts @
             [bos_token example_tokenizer # content @
                replicate pads (pad_token example_tokenizer) @ [eos_token example_tokenizer]]) \<and>
      concat parts @ content = [''a'', ''b'', ''c''])"
proof -
  have h: "(3::int) \<le> 4" by simp
  have f: "bos_token example_tokenizer \<notin> set [''a'', ''b'', ''c'']"
    "eos_token example_tokenizer \<notin> set [''a'', ''b'', ''c'']"
    "pad_token example_tokenizer \<notin> set [''a'', ''b'', ''c'']"
    by (simp_all add: example_tokenizer_def)
  have v: "build_chunks example_tokenizer 4 [''a'', ''b'', ''c''] [] =
     Inr [[''<s>'', ''a'', ''b'', ''</s>''], [''<s>'', ''c'', ''<pad>'', ''</s>'']]"
    by (simp add: build_chunks_def list_setitem_def example_tokenizer_def eval_nat_numeral)
  have s: "concat (map (strip_markers example_tokenizer)
     [[''<s>'', ''a'', ''b'', ''</s>''], [''<s>'', ''c'', ''<pad>'', ''</s>'']]) = [''a'', ''b'', ''c'']"
    by (simp add: strip_markers_def example_tokenizer_def)
  from chunks_cover_tokens [OF h, of example_tokenizer "[''a'', ''b'', ''c'']" "[]"]
  have "\<exists>parts content pads.
      build_chunks example_tokenizer 4 [''a'', ''b'', ''c''] [] =
        Inr ([] @ map (\<lambda>p. bos_token example_tokenizer # p @ [eos_token example_tokenizer]) parts @
             [bos_token example_tokenizer # content @
                replicate pads (pad_token example_tokenizer) @ [eos_token example_tokenizer]]) \<and>
      concat parts @ content = [''a'', ''b'', ''c'']"
    by blast
  with h f v s show ?thesis by blast
qed

subsection \<open>Claims about the train and validation split\<close>

text \<open>
  C2, as the code has it. The draw is made once per non-empty line, before the line is
  chunked: for \<open>seqlen\<close> of at least 3, processing one non-empty line makes exactly one
  call of the random generator, and all chunks of the line go to the train bucket when
  the draw is above the split ratio and to the validation bucket otherwise.
\<close>

theorem split_draw_per_line:
  assumes "3 \<le> seqlen a" and "strip line \<noteq> ''''"
  shows "build_chunks tk (seqlen a) (tokenize tk line) [] =
           Inr (document_chunks tk (seqlen a) line) \<and>
         document_chunks tk (seqlen a) line \<noteq> [] \<and>
         process_lines tk a rs [line] (train_chunks, val_chunks, n) =
           Inr (if random_draw rs n > train_dev_split a
                then (train_chunks @ document_chunks tk (seqlen a) line, val_chunks, Suc n)
                else (train_chunks, val_chunks @ document_chunks tk (seqlen a) line, Suc n))"
  using assms(2) build_chunks_document [OF assms(1), of tk line]
  by simp

theorem split_draw_per_line_witness:
  "3 \<le> seqlen (example_args 4 (1 / 2)) \<and> strip ''a b c'' \<noteq> '''' \<and>
   document_chunks example_tokenizer 4 ''a b c'' =
     [[''<s>'', ''a'', ''b'', ''</s>''], [''<s>'', ''c'', ''<pad>'', ''</s>'']] \<and>
   random_draw example_random 0 > train_dev_split (example_args 4 (1 / 2)) \<and>
   process_lines example_tokenizer (example_args 4 (1 / 2)) example_random [''a b c'']
       ([[''x'']], [[''y'']], 0) =
     Inr ([[''x''], [''<s>'', ''a'', ''b'', ''</s>''], [''<s>'', ''c'', ''<pad>'', ''</s>'']],
          [[''y'']], 1)"
proof -
  have h1: "3 \<le> seqlen (example_args 4 (1 / 2))" by (simp add: example_args_def)
  have h2: "strip ''a b c'' \<noteq> ''''" by (simp add: strip_def py_isspace_def)
  have d: "document_chunks example_tokenizer 4 ''a b c'' =
     [[''<s>'', ''a'', ''b'', ''</s>''], [''<s>'', ''c'', ''<pad>'', ''</s>'']]"
    by (simp add: document_chunks_def example_tokenizer_def py_isspace_def build_chunks_def
        list_setitem_def eval_nat_numeral)
  have r: "random_draw example_random 0 > train_dev_split (example_args 4 (1 / 2))"
    by (simp add: example_random_def example_args_def)
  have s: "seqlen (example_args 4 (1 / 2)) = 4" by (simp add: example_args_def)
  from split_draw_per_line [OF h1 h2, of example_tokenizer example_random "[[''x'']]" "[[''y'']]" 0]
  have "process_lines example_tokenizer (example_args 4 (1 / 2)) example_random [''a b c'']
       ([[''x'']], [[''y'']], 0) =
     Inr ([[''x''], [''<s>'', ''a'', ''b'', ''</s>''], [''<s>'', ''c'', ''<pad>'', ''</s>'']],
          [[''y'']], 1)"
    unfolding s d using r by simp
  with h1 h2 d r show ?thesis by blast
qed

text \<open>
  C2 as the specification states it, with one draw per chunk, differs from the code on a
  line of three tokens with \<open>seqlen = 4\<close>, ratio 1/2 and the draws 9/10, 1/10: the
  code makes one draw and puts both chunks into the train bucket, a draw per chunk
  would make two and send the second chunk to the validation bucket.
\<close>

theorem split_per_chunk_counterexample:
  "process_lines example_tokenizer (example_args 4 (1 / 2)) example_random [''a b c''] ([], [], 0) =
     Inr ([[''<s>'', ''a'', ''b'', ''</s>''], [''<s>'', ''c'', ''<pad>'', ''</s>'']], [], 1) \<and>
   process_lines_per_chunk example_tokenizer (example_args 4 (1 / 2)) example_random [''a b c'']
       ([], [], 0) =
     Inr ([[''<s>'', ''a'', ''b'', ''</s>'']], [[''<s>'', ''c'', ''<pad>'', ''</s>'']], 2)"
  by (simp add: example_args_def example_random_def example_tokenizer_def strip_def
      py_isspace_def build_chunks_def list_setitem_def eval_nat_numeral)

text \<open>
  C10. For \<open>seqlen\<close> of at least 3 and any list of lines, the loop makes one draw for
  each non-empty line, and each bucket grows by the complete chunk lists of the lines
  whose draw selected it: the chunks of one line are never split between the buckets.
\<close>

theorem document_in_one_bucket:
  assumes "3 \<le> seqlen a"
  shows "process_lines tk a rs lines (train_chunks, val_chunks, n) =
           Inr (train_chunks @
                  concat (map (\<lambda>(l, d). document_chunks tk (seqlen a) l)
                    (filter (\<lambda>(l, d). d > train_dev_split a) (tag_documents rs n lines))),
                val_chunks @
                  concat (map (\<lambda>(l, d). document_chunks tk (seqlen a) l)
                    (filter (\<lambda>(l, d). \<not> d > train_dev_split a) (tag_documents rs n lines))),
                n + length (tag_documents rs n lines))"
proof (induction lines arbitrary: train_chunks val_chunks n)
  case Nil
  show ?case by (simp add: tag_documents_Nil)
next
  case (Cons l ls)
  show ?case
  proof (cases "strip l = ''''")
    case True
    then show ?thesis using Cons.IH by (simp add: tag_documents_Cons)
  next
    case False
    note doc = build_chunks_document(1) [OF assms, of tk l]
    show ?thesis
    proof (cases "random_draw rs n > train_dev_split a")
      case True
      have "process_lines tk a rs (l # ls) (train_chunks, val_chunks, n) =
              process_lines tk a rs ls
                (train_chunks @ document_chunks tk (seqlen a) l, val_chunks, Suc n)"
        using False True doc by simp
      then show ?thesis
        unfolding Cons.IH using False True by (simp add: tag_documents_Cons)
    next
      case nope: False
      have "process_lines tk a rs (l # ls) (train_chunks, val_chunks, n) =
              process_lines tk a rs ls
                (train_chunks, val_chunks @ document_chunks tk (seqlen a) l, Suc n)"
        using False nope doc by simp
      then show ?thesis
        unfolding Cons.IH using False nope by (simp add: tag_documents_Cons)
    qed
  qed
qed

theorem document_in_one_bucket_witness:
  "3 \<le> seqlen (example_args 4 (1 / 2)) \<and>
   tag_documents example_random 0 [''a b c'', [CHR 0x0A], ''hello world''] =
     [(''a b c'', 9 / 10), (''hello world'', 1 / 10)] \<and>
   process_lines example_tokenizer (example_args 4 (1 / 2)) example_random
       [''a b c'', [CHR 0x0A], ''hello world''] ([], [], 0) =
     Inr ([[''<s>'', ''a'', ''b'', ''</s>''], [''<s>'', ''c'', ''<pad>'', ''</s>'']],
          [[''<s>'', ''hello'', ''world'', ''</s>'']], 2)"
proof -
  have h: "3 \<le> seqlen (example_args 4 (1 / 2))" by (simp add: example_args_def)
  have s: "seqlen (example_args 4 (1 / 2)) = 4" by (simp add: example_args_def)
  have t: "tag_documents example_random 0 [''a b c'', [CHR 0x0A], ''hello world''] =
     [(''a b c'', 9 / 10), (''hello world'', 1 / 10)]"
    by (simp add: tag_documents_def example_random_def strip_def py_isspace_def upt_rec)
  have d1: "document_chunks example_tokenizer 4 ''a b c'' =
     [[''<s>'', ''a'', ''b'', ''</s>''], [''<s>'', ''c'', ''<pad>'', ''</s>'']]"
    by (simp add: document_chunks_def example_tokenizer_def py_isspace_def build_chunks_def
        list_setitem_def eval_nat_numeral)
  have d2: "document_chunks example_tokenizer 4 ''hello world'' =
     [[''<s>'', ''hello'', ''world'', ''</s>'']]"
    by (simp add: document_chunks_def example_tokenizer_def py_isspace_def build_chunks_def
        list_setitem_def eval_nat_numeral)
  have r: "train_dev_split (example_args 4 (1 / 2)) = 1 / 2" by (simp add: example_args_def)
  from document_in_one_bucket [OF h, of example_tokenizer example_random
      "[''a b c'', [CHR 0x0A], ''hello world'']" "[]" "[]" 0]
  have "process_lines example_tokenizer (example_args 4 (1 / 2)) example_random
       [''a b c'', [CHR 0x0A], ''hello world''] ([], [], 0) =
     Inr ([[''<s>'', ''a'', ''b'', ''</s>''], [''<s>'', ''c'', ''<pad>'', ''</s>'']],
          [[''<s>'', ''hello'', ''world'', ''</s>'']], 2)"
    unfolding t s r by (simp add: d1 d2)
  with h t show ?thesis by blast
qed

subsection \<open>Claims about the binary cache file and the mapped dataset\<close>

text \<open>
  C5. Round trip. Let a bucket be serialized with a positive \<open>seqlen\<close>, every chunk
  having exactly \<open>seqlen\<close> ids, each id at least 0 and below 65535, and the shuffle
  returning a permutation. Then the write succeeds, the dataset opened on the written
  file has as many records as the bucket has chunks and no mapping yet, and for every
  index \<open>i\<close> from 0 up to that number the first call of \<^verbatim>\<open>__getitem__\<close> returns the ids
  of the chunk stored in row \<open>i\<close> (the \<open>i\<close>-th chunk of the shuffled bucket), unchanged
  in value and order, and leaves the handle with the mapping of all rows. On that
  opened handle every later call, at any valid index \<open>j\<close>, returns the ids of row \<open>j\<close>
  and leaves the handle as it is.
\<close>

theorem roundtrip:
  assumes S: "0 < seqlen a"
    and perm: "mset (shuffle_perm rs n chunks_list) = mset chunks_list"
    and ids: "\<forall>c\<in>set chunks_list.
                int (length (convert_tokens_to_ids tk c)) = seqlen a \<and>
                (\<forall>t\<in>set (convert_tokens_to_ids tk c). 0 \<le> t \<and> t < 65535)"
    and i: "0 \<le> i" "i < int (length chunks_list)"
  shows "\<exists>w' ds.
           tokenized_text_to_mmap tk a rs n fname chunks_list w = (Inr (), w') \<and>
           MMapTextDataset_init w' fname (seqlen a) = Inr ds \<and>
           len ds = int (length chunks_list) \<and>
           token_ids ds = None \<and>
           getitem w' ds i =
             (Inr (convert_tokens_to_ids tk (shuffle_perm rs n chunks_list ! nat i)),
              ds\<lparr>token_ids := Some (map (\<lambda>c. map word_of_int (convert_tokens_to_ids tk c))
                                       (shuffle_perm rs n chunks_list))\<rparr>) \<and>
           (\<forall>j. 0 \<le> j \<and> j < int (length chunks_list) \<longrightarrow>
              getitem w'
                (ds\<lparr>token_ids := Some (map (\<lambda>c. map word_of_int (convert_tokens_to_ids tk c))
                                         (shuffle_perm rs n chunks_list))\<rparr>) j =
                (Inr (convert_tokens_to_ids tk (shuffle_perm rs n chunks_list ! nat j)),
                 ds\<lparr>token_ids := Some (map (\<lambda>c. map word_of_int (convert_tokens_to_ids tk c))
                                          (shuffle_perm rs n chunks_list))\<rparr>))"
proof -
  define shuffled where "shuffled = shuffle_perm rs n chunks_list"
  define rows where
    "rows = map (\<lambda>c. map word_of_int (convert_tokens_to_ids tk c) :: uint16 list) shuffled"
  define w' where
    "w' = w\<lparr>paths := insert fname (paths w),
            bin_files := (bin_files w)(fname \<mapsto> concat (map uint16_to_bytes (concat rows)))\<rparr>"
  define ds where
    "ds = \<lparr>num_instances = int (length rows), token_ids = None, mmap_filename = fname,
           chunk_size = seqlen a\<rparr>"
  define ds' where "ds' = ds\<lparr>token_ids := Some rows\<rparr>"
  have same_set: "set shuffled = set chunks_list"
    unfolding shuffled_def using perm by (rule mset_eq_setD)
  have same_len: "length shuffled = length chunks_list"
    unfolding shuffled_def using perm by (rule mset_eq_length)
  have lens: "\<forall>c\<in>set (shuffle_perm rs n chunks_list).
                 int (length (convert_tokens_to_ids tk c)) = seqlen a"
    using ids same_set unfolding shuffled_def by blast
  have some: "shuffle_perm rs n chunks_list \<noteq> []"
    using i same_len unfolding shuffled_def by auto
  have written: "tokenized_text_to_mmap tk a rs n fname chunks_list w = (Inr (), w')"
    unfolding w'_def rows_def shuffled_def by (rule write_then_map(1) [OF S lens some])
  have opened: "MMapTextDataset_init w' fname (seqlen a) = Inr ds"
    unfolding ds_def w'_def rows_def shuffled_def by (rule write_then_map(2) [OF S lens some])
  have mapped: "memmap_2d w' fname (int (length rows)) (seqlen a) = Inr rows"
    unfolding w'_def rows_def shuffled_def by (rule write_then_map(3) [OF S lens some])
  have n_rows: "length rows = length chunks_list" by (simp add: rows_def same_len)
  have row: "map uint (rows ! nat j) = convert_tokens_to_ids tk (shuffled ! nat j)"
    if j: "0 \<le> j" "j < int (length chunks_list)" for j
  proof -
    have idx: "nat j < length shuffled" using j same_len by simp
    then have member: "shuffled ! nat j \<in> set chunks_list"
      using same_set nth_mem by blast
    have "rows ! nat j = map word_of_int (convert_tokens_to_ids tk (shuffled ! nat j))"
      unfolding rows_def using idx by simp
    then show ?thesis
      using widen_uint16 [of "convert_tokens_to_ids tk (shuffled ! nat j)"] ids member by simp
  qed
  have first: "getitem w' ds i = (Inr (convert_tokens_to_ids tk (shuffled ! nat i)), ds')"
    unfolding getitem_def using mapped i n_rows row [OF i] by (simp add: ds_def ds'_def)
  have later: "getitem w' ds' j = (Inr (convert_tokens_to_ids tk (shuffled ! nat j)), ds')"
    if j: "0 \<le> j" "j < int (length chunks_list)" for j
    unfolding getitem_def using j n_rows row [OF j] by (simp add: ds_def ds'_def)
  have size: "len ds = int (length chunks_list)" by (simp add: len_def ds_def n_rows)
  have closed: "token_ids ds = None" by (simp add: ds_def)
  show ?thesis
    using written opened size closed first later
    unfolding ds'_def rows_def shuffled_def by blast
qed

theorem roundtrip_witness:
  "0 < seqlen (example_args 4 0) \<and>
   mset (shuffle_perm example_random 0
          [[''<s>'', ''a'', ''b'', ''</s>''], [''<s>'', ''hello'', ''world'', ''</s>'']]) =
     mset [[''<s>'', ''a'', ''b'', ''</s>''], [''<s>'', ''hello'', ''world'', ''</s>'']] \<and>
   (0::int) < int (length [[''<s>'', ''a'', ''b'', ''</s>''], [''<s>'', ''hello'', ''world'', ''</s>'']]) \<and>
   bin_files (snd (tokenized_text_to_mmap example_tokenizer (example_args 4 0) example_random 0
       ''data/cache/train.bin''
       [[''<s>'', ''a'', ''b'', ''</s>''], [''<s>'', ''hello'', ''world'', ''</s>'']] example_world))
     ''data/cache/train.bin'' = Some [0, 0, 4, 0, 5, 0, 2, 0, 0, 0, 3, 0, 3, 0, 2, 0] \<and>
   (\<exists>w' ds.
      tokenized_text_to_mmap example_tokenizer (example_args 4 0) example_random 0
        ''data/cache/train.bin''
        [[''<s>'', ''a'', ''b'', ''</s>''], [''<s>'', ''hello'', ''world'', ''</s>'']] example_world =
        (Inr (), w') \<and>
      MMapTextDataset_init w' ''data/cache/train.bin'' 4 = Inr ds \<and> len ds = 2 \<and>
      getitem w' ds 0 = (Inr [0, 4, 5, 2], ds\<lparr>token_ids := Some [[0, 4, 5, 2], [0, 3, 3, 2]]\<rparr>) \<and>
      getitem w' (ds\<lparr>token_ids := Some [[0, 4, 5, 2], [0, 3, 3, 2]]\<rparr>) 1 =
        (Inr [0, 3, 3, 2], ds\<lparr>token_ids := Some [[0, 4, 5, 2], [0, 3, 3, 2]]\<rparr>))"
proof -
  let ?cl = "[[''<s>'', ''a'', ''b'', ''</s>''], [''<s>'', ''hello'', ''world'', ''</s>'']]"
  have h1: "0 < seqlen (example_args 4 0)" by (simp add: example_args_def)
  have h2: "mset (shuffle_perm example_random 0 ?cl) = mset ?cl"
    by (simp add: example_random_def)
  have h3: "\<forall>c\<in>set ?cl.
      int (length (convert_tokens_to_ids example_tokenizer c)) = seqlen (example_args 4 0) \<and>
      (\<forall>t\<in>set (convert_tokens_to_ids example_tokenizer c). 0 \<le> t \<and> t < 65535)"
    by (simp add: example_tokenizer_def example_args_def example_id_def)
  have h4: "(0::int) \<le> 0" by simp
  have h5: "(0::int) < int (length ?cl)" by simp
  have s: "seqlen (example_args 4 0) = 4" by (simp add: example_args_def)
  have row0: "convert_tokens_to_ids example_tokenizer (shuffle_perm example_random 0 ?cl ! nat 0) =
      [0, 4, 5, 2]"
    by (simp add: example_tokenizer_def example_random_def example_id_def)
  have row1: "convert_tokens_to_ids example_tokenizer (shuffle_perm example_random 0 ?cl ! nat 1) =
      [0, 3, 3, 2]"
    by (simp add: example_tokenizer_def example_random_def example_id_def)
  have rows: "map (\<lambda>c. map word_of_int (convert_tokens_to_ids example_tokenizer c))
      (shuffle_perm example_random 0 ?cl) = [[0, 4, 5, 2], [0, 3, 3, 2 :: uint16]]"
    by (simp add: example_tokenizer_def example_random_def example_id_def)
  have stored: "bin_files (snd (tokenized_text_to_mmap example_tokenizer (example_args 4 0)
       example_random 0 ''data/cache/train.bin'' ?cl example_world)) ''data/cache/train.bin'' =
     Some [0, 0, 4, 0, 5, 0, 2, 0, 0, 0, 3, 0, 3, 0, 2, 0]"
    by (simp add: tokenized_text_to_mmap_def memmap_write_def example_tokenizer_def
        example_random_def example_args_def example_id_def uint16_to_bytes_def)
  from roundtrip [OF h1 h2 h3 h4 h5, of "''data/cache/train.bin''" example_world]
  obtain w' ds where
    a: "tokenized_text_to_mmap example_tokenizer (example_args 4 0) example_random 0
        ''data/cache/train.bin'' ?cl example_world = (Inr (), w')"
    and b: "MMapTextDataset_init w' ''data/cache/train.bin'' 4 = Inr ds"
    and c: "len ds = 2"
    and d: "getitem w' ds 0 =
      (Inr [0, 4, 5, 2], ds\<lparr>token_ids := Some [[0, 4, 5, 2], [0, 3, 3, 2]]\<rparr>)"
    and e: "\<forall>j. 0 \<le> j \<and> j < int (length ?cl) \<longrightarrow>
      getitem w' (ds\<lparr>token_ids := Some [[0, 4, 5, 2], [0, 3, 3, 2]]\<rparr>) j =
        (Inr (convert_tokens_to_ids example_tokenizer (shuffle_perm example_random 0 ?cl ! nat j)),
         ds\<lparr>token_ids := Some [[0, 4, 5, 2], [0, 3, 3, 2]]\<rparr>)"
    unfolding rows row0 s by auto
  from e have "getitem w' (ds\<lparr>token_ids := Some [[0, 4, 5, 2], [0, 3, 3, 2]]\<rparr>) 1 =
        (Inr (convert_tokens_to_ids example_tokenizer (shuffle_perm example_random 0 ?cl ! nat 1)),
         ds\<lparr>token_ids := Some [[0, 4, 5, 2], [0, 3, 3, 2]]\<rparr>)"
    by simp
  then have f: "getitem w' (ds\<lparr>token_ids := Some [[0, 4, 5, 2], [0, 3, 3, 2]]\<rparr>) 1 =
        (Inr [0, 3, 3, 2], ds\<lparr>token_ids := Some [[0, 4, 5, 2], [0, 3, 3, 2]]\<rparr>)"
    unfolding row1 .
  from a b c d f have "\<exists>w' ds.
      tokenized_text_to_mmap example_tokenizer (example_args 4 0) example_random 0
        ''data/cache/train.bin'' ?cl example_world = (Inr (), w') \<and>
      MMapTextDataset_init w' ''data/cache/train.bin'' 4 = Inr ds \<and> len ds = 2 \<and>
      getitem w' ds 0 = (Inr [0, 4, 5, 2], ds\<lparr>token_ids := Some [[0, 4, 5, 2], [0, 3, 3, 2]]\<rparr>) \<and>
      getitem w' (ds\<lparr>token_ids := Some [[0, 4, 5, 2], [0, 3, 3, 2]]\<rparr>) 1 =
        (Inr [0, 3, 3, 2], ds\<lparr>token_ids := Some [[0, 4, 5, 2], [0, 3, 3, 2]]\<rparr>)"
    by blast
  with h1 h2 h5 stored show ?thesis by blast
qed




subsection \<open>Claims about the guards of the ingestion\<close>

text \<open>
  C7. When the cache directory exists under the input directory, the ingestion leaves
  the file system as it is: nothing is created, written or modified. Under the
  precondition of the operation (a vocabulary of fewer than 65535 entries) it returns
  without error.
\<close>

theorem existing_cache_is_noop:
  assumes "cache_dir a \<in> paths w"
  shows "snd (raw_text_to_mmap tk a rs w) = w \<and>
         (vocab_len tk < 65535 \<longrightarrow> raw_text_to_mmap tk a rs w = (Inr (), w))"
  using assms by (simp add: raw_text_to_mmap_def)

theorem existing_cache_is_noop_witness:
  "cache_dir (example_args 8 0) \<in> paths (example_world\<lparr>paths := {''data'', ''data/cache/''}\<rparr>) \<and>
   vocab_len example_tokenizer < 65535 \<and>
   raw_text_to_mmap example_tokenizer (example_args 8 0) example_random
       (example_world\<lparr>paths := {''data'', ''data/cache/''}\<rparr>) =
     (Inr (), example_world\<lparr>paths := {''data'', ''data/cache/''}\<rparr>)"
proof -
  let ?w = "example_world\<lparr>paths := {''data'', ''data/cache/''}\<rparr>"
  have h: "cache_dir (example_args 8 0) \<in> paths ?w"
    by (simp add: cache_dir_def example_args_def)
  have v: "vocab_len example_tokenizer < 65535" by (simp add: example_tokenizer_def)
  from existing_cache_is_noop [OF h, of example_tokenizer example_random] h v
  show ?thesis by blast
qed

text \<open>
  C8. When the vocabulary of the tokenizer has 65535 entries or more, the ingestion
  fails with the assertion error and the file system is as before: neither the cache
  directory nor a cache file was created or written.
\<close>

theorem vocabulary_overflow_fails_first:
  assumes "65535 \<le> vocab_len tk"
  shows "raw_text_to_mmap tk a rs w = (Inl AssertionError, w)"
  using assms by (simp add: raw_text_to_mmap_def)

theorem vocabulary_overflow_fails_first_witness:
  "65535 \<le> vocab_len (example_tokenizer\<lparr>vocab_len := 65535\<rparr>) \<and>
   raw_text_to_mmap (example_tokenizer\<lparr>vocab_len := 65535\<rparr>) (example_args 8 0) example_random
       example_world =
     (Inl AssertionError, example_world)"
proof -
  have h: "65535 \<le> vocab_len (example_tokenizer\<lparr>vocab_len := 65535\<rparr>)" by simp
  from vocabulary_overflow_fails_first [OF h, of "example_args 8 0" example_random example_world] h
  show ?thesis by blast
qed

subsection \<open>The concrete scenario\<close>




text \<open>
  The draw has to be above the ratio: \<^verbatim>\<open>random.random\<close> returns values from 0
  (included) to 1, and with a first draw of exactly 0 and ratio 0 the chunk of the
  scenario goes to the validation bucket.
\<close>

lemma zero_draw_goes_to_validation:
  "process_lines example_tokenizer (example_args 8 0)
       (example_random\<lparr>random_draw := (\<lambda>n. 0)\<rparr>)
       [''hello world'' @ [CHR 0x0A], [CHR 0x0A]] ([], [], 0) =
     Inr ([],
          [[''<s>'', ''hello'', ''world'', ''<pad>'', ''<pad>'', ''<pad>'', ''<pad>'', ''</s>'']],
          Suc 0)"
proof -
  have built: "build_chunks example_tokenizer 8 [''hello'', ''world''] [] =
      Inr [[''<s>'', ''hello'', ''world'', ''<pad>'', ''<pad>'', ''<pad>'', ''<pad>'', ''</s>'']]"
    by (simp add: build_chunks_def list_setitem_def example_tokenizer_def eval_nat_numeral)
  show ?thesis
    using built
    by (simp add: strip_def py_isspace_def example_args_def example_random_def
        example_tokenizer_def)
qed

end
